theory Spec2Isabelle
  imports Complex_Main "HOL-Library.AList"
begin

section \<open>Schema normalizer (api.ts, convertSchemaToOpenAI)\<close>

text \<open>
  A schema node as \<^verbatim>\<open>convertSchemaToOpenAI\<close> sees it: the five fields the function
  reads, each optional, and every other field of the declaration (\<^verbatim>\<open>enum\<close>,
  \<^verbatim>\<open>format\<close>, \<^verbatim>\<open>nullable\<close>, ...) collected in \<open>other\<close>. The property map is the
  list of its own entries, with distinct names, as \<^verbatim>\<open>Object.entries\<close> enumerates it.
  Type tags and descriptions are strings; an absent field (\<^verbatim>\<open>undefined\<close>) is \<open>None\<close>.
  A character of a string is a UTF-16 code unit below 256, so the strings of the model
  are the JavaScript strings over Latin-1.
\<close>

datatype 'x schema = Schema
  (stype: "string option")
  (description: "string option")
  (required: "string list option")
  (properties: "(string \<times> 'x schema) list option")
  (items: "'x schema option")
  (other: "(string \<times> 'x) list")

text \<open>
  \<^verbatim>\<open>String.prototype.toLowerCase\<close> on these strings: the upper-case letters are
  \<^verbatim>\<open>A\<close> to \<^verbatim>\<open>Z\<close> (65 to 90) and U+00C0 to U+00DE without the multiplication sign
  U+00D7 (192 to 222 without 215); each has its lower-case form 32 code units above,
  and every other code unit below 256 is mapped to itself.
\<close>

definition toLowerChar :: "char \<Rightarrow> char" where
  "toLowerChar c =
     (let n = (of_char c :: nat)
      in if (65 \<le> n \<and> n \<le> 90) \<or> (192 \<le> n \<and> n \<le> 222 \<and> n \<noteq> 215)
         then char_of (n + 32) else c)"

definition toLowerCase :: "string \<Rightarrow> string" where
  "toLowerCase s = map toLowerChar s"

text \<open>
  JavaScript truthiness of an optional string field: \<^verbatim>\<open>undefined\<close> and the empty string
  are falsy. Arrays and objects are always truthy, so for \<open>required\<close>, \<open>properties\<close> and
  \<open>items\<close> the test \<^verbatim>\<open>if (schema.f)\<close> is the test for presence.
\<close>

definition truthyStr :: "string option \<Rightarrow> string option" where
  "truthyStr f = (case f of None \<Rightarrow> None | Some s \<Rightarrow> if s = [] then None else Some s)"

text \<open>The result of \<^verbatim>\<open>{}\<close>: no field set.\<close>

definition emptyObject :: "'x schema" where
  "emptyObject = Schema None None None None None []"

text \<open>
  \<^verbatim>\<open>
  function convertSchemaToOpenAI(schema: any): any {
    if (!schema) return {};
    const result: any = {};
    if (schema.type) { result.type = schema.type.toLowerCase(); }
    if (schema.description) result.description = schema.description;
    if (schema.required) result.required = schema.required;
    if (schema.properties) {
      result.properties = {};
      for (const [key, val] of Object.entries(schema.properties)) {
        result.properties[key] = convertSchemaToOpenAI(val);
      }
    }
    if (schema.items) { result.items = convertSchemaToOpenAI(schema.items); }
    return result;
  }
  \<close>
  The argument is optional (\<^verbatim>\<open>fn.parameters\<close> may be undefined): \<open>None\<close> is the
  null/undefined input. \<^verbatim>\<open>result.properties\<close> is a plain object, so the assignment
  \<^verbatim>\<open>result.properties[key] = ...\<close> for the key \<^verbatim>\<open>__proto__\<close> runs the setter of
  \<^verbatim>\<open>Object.prototype\<close>: it replaces the prototype and stores no entry. Every other
  key becomes an own entry.
\<close>

definition storedKey :: "string \<Rightarrow> bool" where
  "storedKey key = (key \<noteq> ''__proto__'')"

fun convertSchemaToOpenAI :: "'x schema option \<Rightarrow> 'x schema" where
  "convertSchemaToOpenAI None = emptyObject"
| "convertSchemaToOpenAI (Some (Schema t d r p i x)) =
     Schema
       (map_option toLowerCase (truthyStr t))
       (truthyStr d)
       r
       (map_option (\<lambda>entries.
            map (\<lambda>kv. (fst kv, convertSchemaToOpenAI (Some (snd kv))))
              (filter (\<lambda>kv. storedKey (fst kv)) entries)) p)
       (map_option (\<lambda>v. convertSchemaToOpenAI (Some v)) i)
       []"

text \<open>
  A position below a node: through the property named \<open>k\<close>, or into \<open>items\<close>. A path
  of such steps reaches every recursion level of a schema.
\<close>

datatype hop = Prop string | Items

fun nodeAt :: "'x schema \<Rightarrow> hop list \<Rightarrow> 'x schema option" where
  "nodeAt s [] = Some s"
| "nodeAt s (Prop k # \<pi>) =
     (case properties s of None \<Rightarrow> None
      | Some ps \<Rightarrow> (case map_of ps k of None \<Rightarrow> None | Some c \<Rightarrow> nodeAt c \<pi>))"
| "nodeAt s (Items # \<pi>) =
     (case items s of None \<Rightarrow> None | Some c \<Rightarrow> nodeAt c \<pi>)"

text \<open>The parameter schema of \<^verbatim>\<open>set_timecodes\<close> (functions.ts), as an example input.\<close>

definition setTimecodesParameters :: "unit schema" where
  "setTimecodesParameters =
     Schema (Some ''OBJECT'') None (Some [''timecodes''])
       (Some [(''timecodes'',
          Schema (Some ''ARRAY'') None None None
            (Some (Schema (Some ''OBJECT'') None (Some [''time'', ''text''])
               (Some [(''time'', Schema (Some ''STRING'')
                          (Some ''Timecode in MM:SS or HH:MM:SS format'') None None None []),
                      (''text'', Schema (Some ''STRING'')
                          (Some ''Description or analysis for this timecode'') None None None [])])
               None []))
            [])])
       None []"

section \<open>Frame sub-sampling and the Anthropic request (api.ts)\<close>

record UploadedFile =
  uri :: string
  mimeType :: string
  frames :: "string list option"

text \<open>
  \<^verbatim>\<open>
  const maxFrames = 20;
  const step = Math.max(1, Math.floor(file.frames.length / maxFrames));
  const sampledFrames = file.frames.filter((_, i) => i % step === 0).slice(0, maxFrames);
  \<close>
  The same three lines stand in \<^verbatim>\<open>generateWithOpenAI\<close> and
  \<^verbatim>\<open>generateWithAnthropic\<close>. \<^verbatim>\<open>filter\<close> with an index callback is a filter over
  the frames paired with their positions; \<^verbatim>\<open>slice(0, n)\<close> is \<open>take n\<close>. The
  local constant \<^verbatim>\<open>maxFrames\<close> of the adapters is named \<open>maxFramesSent\<close> here, to
  keep it apart from the parameter \<^verbatim>\<open>maxFrames\<close> of \<^verbatim>\<open>extractFrames\<close>.
\<close>

definition maxFramesSent :: nat where
  "maxFramesSent = 20"

definition step :: "nat \<Rightarrow> nat" where
  "step len = max 1 (len div maxFramesSent)"

definition filterIndexed :: "('a \<Rightarrow> nat \<Rightarrow> bool) \<Rightarrow> 'a list \<Rightarrow> 'a list" where
  "filterIndexed p xs = map fst (filter (\<lambda>xi. p (fst xi) (snd xi)) (zip xs [0..<length xs]))"

definition sampledFrames :: "'a list \<Rightarrow> 'a list" where
  "sampledFrames fs = take maxFramesSent (filterIndexed (\<lambda>_ i. i mod step (length fs) = 0) fs)"

text \<open>The content blocks of a user message, for the two image-frame providers.\<close>

record imageSource =
  source_type :: string
  media_type :: string
  data :: string

datatype contentBlock =
    TextBlock string
  | ImageBlock imageSource
  | ImageUrlBlock string string

fun isImage :: "contentBlock \<Rightarrow> bool" where
  "isImage (ImageBlock _) = True"
| "isImage _ = False"

fun isText :: "contentBlock \<Rightarrow> bool" where
  "isText (TextBlock _) = True"
| "isText _ = False"

text \<open>
  \<^verbatim>\<open>if (file.frames && file.frames.length > 0)\<close>: the frames that are sent, none when
  the field is absent or empty.
\<close>

definition framesToSend :: "UploadedFile \<Rightarrow> string list" where
  "framesToSend file =
     (case frames file of
        None \<Rightarrow> []
      | Some fs \<Rightarrow> if length fs > 0 then sampledFrames fs else [])"

text \<open>
  \<^verbatim>\<open>generateWithOpenAI\<close>: the text block first, then one \<^verbatim>\<open>image_url\<close> block per
  sampled frame (\<^verbatim>\<open>url: `data:image/jpeg;base64,${frame}`, detail: 'high'\<close>).
\<close>

definition openaiUserContent :: "string \<Rightarrow> UploadedFile \<Rightarrow> contentBlock list" where
  "openaiUserContent text file =
     [TextBlock text]
     @ map (\<lambda>frame. ImageUrlBlock (''data:image/jpeg;base64,'' @ frame) ''high'')
         (framesToSend file)"

text \<open>
  \<^verbatim>\<open>generateWithAnthropic\<close>: \<^verbatim>\<open>userContent\<close> starts empty, receives one
  \<^verbatim>\<open>image\<close> block per sampled frame, and then
  \<^verbatim>\<open>userContent.push({ type: 'text', text })\<close>.
\<close>

definition anthropicUserContent :: "string \<Rightarrow> UploadedFile \<Rightarrow> contentBlock list" where
  "anthropicUserContent text file =
     map (\<lambda>frame. ImageBlock \<lparr>source_type = ''base64'', media_type = ''image/jpeg'', data = frame\<rparr>)
       (framesToSend file)
     @ [TextBlock text]"

text \<open>Tool declarations and the body that \<^verbatim>\<open>generateWithAnthropic\<close> posts.\<close>

record 'x functionDeclaration =
  fn_name :: string
  fn_description :: string
  fn_parameters :: "'x schema option"

record 'x anthropicTool =
  tool_name :: string
  tool_description :: string
  input_schema :: "'x schema"

record anthropicMessage =
  role :: string
  content :: "contentBlock list"

record 'x anthropicBody =
  body_model :: string
  max_tokens :: nat
  system :: string
  messages :: "anthropicMessage list"
  tools :: "'x anthropicTool list"
  tool_choice :: string

definition systemInstruction :: string where
  "systemInstruction =
     ''You are an expert workflow and UI analyst. When given a video of a UI workflow application and a query,\<newline>''
     @ ''call the relevant function only once with the appropriate timecodes and structured data for the video.\<newline>''
     @ ''Focus on identifying user workflows, UI interactions, application screens, and business processes visible in the video.''"

text \<open>
  The argument of \<^verbatim>\<open>JSON.stringify\<close> in \<^verbatim>\<open>generateWithAnthropic\<close>; the model
  parameter defaults to \<^verbatim>\<open>'claude-opus-4-5'\<close>, \<^verbatim>\<open>tool_choice\<close> is
  \<^verbatim>\<open>{ type: 'any' }\<close>.
\<close>

definition anthropicRequestBody ::
  "string \<Rightarrow> 'x functionDeclaration list \<Rightarrow> UploadedFile \<Rightarrow> string option \<Rightarrow> 'x anthropicBody" where
  "anthropicRequestBody text functionDeclarations file model =
     \<lparr>body_model = (case model of None \<Rightarrow> ''claude-opus-4-5'' | Some m \<Rightarrow> m),
      max_tokens = 8096,
      system = systemInstruction,
      messages = [\<lparr>role = ''user'', content = anthropicUserContent text file\<rparr>],
      tools = map (\<lambda>fn. \<lparr>tool_name = fn_name fn, tool_description = fn_description fn,
                         input_schema = convertSchemaToOpenAI (fn_parameters fn)\<rparr>)
                functionDeclarations,
      tool_choice = ''any''\<rparr>"

text \<open>Forty-five distinct frames, as an example input.\<close>

definition frames45 :: "string list" where
  "frames45 = map (\<lambda>i. replicate i CHR ''f'') [0..<45]"

section \<open>Gemini upload pipeline (api.ts, uploadFileToGemini)\<close>

text \<open>
  A thrown \<^verbatim>\<open>Error\<close> or a rejected promise, with its message. The failure of remote
  processing is \<^verbatim>\<open>new Error('File processing failed.')\<close>.
\<close>

datatype error = Error string

definition ProcessingError :: error where
  "ProcessingError = Error ''File processing failed.''"

text \<open>
  The browser \<^verbatim>\<open>File\<close> that is uploaded, and the handle the Files API answers with.
  The source reads \<^verbatim>\<open>name\<close>, \<^verbatim>\<open>state\<close>, \<^verbatim>\<open>uri!\<close> and \<^verbatim>\<open>mimeType!\<close> of a
  handle; the two non-null assertions are taken at their word.
\<close>

record browserFile =
  bf_name :: string
  bf_type :: string

record fileHandle =
  fh_name :: string
  fh_state :: string
  fh_uri :: string
  fh_mimeType :: string

text \<open>
  The remote store: what \<^verbatim>\<open>client.files.upload\<close> answers for a file, and what the
  \<open>k\<close>-th call of \<^verbatim>\<open>client.files.get\<close> answers for a name (\<open>k\<close> counts from 0).
  Each call may be rejected.
\<close>

record remote =
  files_upload :: "browserFile \<Rightarrow> error + fileHandle"
  files_get :: "string \<Rightarrow> nat \<Rightarrow> error + fileHandle"

text \<open>The requests and timer waits of a run, in the order they happen.\<close>

datatype effect = CallUpload | CallGet string | Sleep nat

text \<open>
  \<^verbatim>\<open>
  while (getFile.state === 'PROCESSING') {
    await new Promise((resolve) => setTimeout(resolve, 5000));
    getFile = await client.files.get({ name: uploadedFile.name });
    console.log(`File state: ${getFile.state}`);
  }
  \<close>
  The loop has no bound on its iterations, so it is a partial function: \<open>None\<close> is
  the run that never leaves the loop. \<open>k\<close> is the number of \<^verbatim>\<open>get\<close> calls made so
  far, \<open>trace\<close> the effects so far; console output is not recorded.
\<close>

partial_function (option) pollLoop ::
  "remote \<Rightarrow> string \<Rightarrow> nat \<Rightarrow> fileHandle \<Rightarrow> effect list
     \<Rightarrow> ((error + fileHandle) \<times> effect list) option" where
  "pollLoop r name k getFile trace =
     (if fh_state getFile = ''PROCESSING'' then
        (case files_get r name k of
           Inl e \<Rightarrow> Some (Inl e, trace @ [Sleep 5000, CallGet name])
         | Inr g \<Rightarrow> pollLoop r name (Suc k) g (trace @ [Sleep 5000, CallGet name]))
      else Some (Inr getFile, trace))"

text \<open>
  \<^verbatim>\<open>
  const uploadedFile = await client.files.upload({ file: blob, config: { displayName: file.name } });
  let getFile = await client.files.get({ name: uploadedFile.name });
  while ...
  if (getFile.state === 'FAILED') { throw new Error('File processing failed.'); }
  return { uri: getFile.uri!, mimeType: getFile.mimeType! };
  \<close>
  The result is \<open>None\<close> when the call never returns, and otherwise the thrown error
  or the returned value, with the effects of the run.
\<close>

definition uploadFileToGemini ::
  "remote \<Rightarrow> browserFile \<Rightarrow> ((error + UploadedFile) \<times> effect list) option" where
  "uploadFileToGemini r file =
     (case files_upload r file of
        Inl e \<Rightarrow> Some (Inl e, [CallUpload])
      | Inr uploadedFile \<Rightarrow>
          (case files_get r (fh_name uploadedFile) 0 of
             Inl e \<Rightarrow> Some (Inl e, [CallUpload, CallGet (fh_name uploadedFile)])
           | Inr getFile0 \<Rightarrow>
               (case pollLoop r (fh_name uploadedFile) 1 getFile0
                       [CallUpload, CallGet (fh_name uploadedFile)] of
                  None \<Rightarrow> None
                | Some (Inl e, trace) \<Rightarrow> Some (Inl e, trace)
                | Some (Inr getFile, trace) \<Rightarrow>
                    if fh_state getFile = ''FAILED'' then Some (Inl ProcessingError, trace)
                    else Some (Inr \<lparr>uri = fh_uri getFile, mimeType = fh_mimeType getFile,
                                     frames = None\<rparr>, trace))))"

text \<open>
  Example remotes: the upload is accepted under the name \<^verbatim>\<open>files/v1\<close>, and the
  processing state read by the successive \<^verbatim>\<open>get\<close> calls follows a given list, whose
  last state persists.
\<close>

definition handleIn :: "string \<Rightarrow> fileHandle" where
  "handleIn st = \<lparr>fh_name = ''files/v1'', fh_state = st,
                   fh_uri = ''https://files/v1'', fh_mimeType = ''video/mp4''\<rparr>"

definition scriptedRemote :: "string list \<Rightarrow> remote" where
  "scriptedRemote states =
     \<lparr>files_upload = (\<lambda>_. Inr (handleIn ''PROCESSING'')),
      files_get = (\<lambda>_ k. Inr (handleIn (if k < length states then states ! k else last states)))\<rparr>"

definition clip :: browserFile where
  "clip = \<lparr>bf_name = ''clip.mp4'', bf_type = ''video/mp4''\<rparr>"

section \<open>Frame sampler (api.ts, extractFrames)\<close>

text \<open>
  The video element as the sampler uses it: its duration, and the base64 payload that
  drawing the visible frame and encoding it as JPEG (\<^verbatim>\<open>drawImage\<close>, \<^verbatim>\<open>toDataURL\<close>,
  \<^verbatim>\<open>split(',')[1]\<close>) yields at a playback position. JavaScript numbers are modelled
  as real numbers; rounding of the double arithmetic is not modelled.
\<close>

record video =
  duration :: real
  snapshot :: "real \<Rightarrow> string"

datatype signal = SeekIssued real | Seeked

text \<open>
  The variables the closures of \<^verbatim>\<open>extractFrames\<close> share (\<^verbatim>\<open>frames\<close>,
  \<^verbatim>\<open>currentFrame\<close>), the playback position, whether a seek is in flight, whether
  \<^verbatim>\<open>onSeeked\<close> is still registered, whether the promise has been resolved (with the
  \<^verbatim>\<open>frames\<close> array itself), and the seeks issued and completed so far, in order.
\<close>

record sampler =
  ex_frames :: "string list"
  currentFrame :: nat
  currentTime :: real
  seeking :: bool
  listening :: bool
  resolved :: bool
  signals :: "signal list"

text \<open>
  \<^verbatim>\<open>
  const captureFrame = () => {
    if (currentFrame >= maxFrames) { resolve(frames); return; }
    const time = currentFrame * interval;
    videoElement.currentTime = time;
  };
  \<close>
  Assigning \<^verbatim>\<open>currentTime\<close> starts a seek.
\<close>

definition captureFrame :: "nat \<Rightarrow> real \<Rightarrow> sampler \<Rightarrow> sampler" where
  "captureFrame maxFrames interval s =
     (if currentFrame s \<ge> maxFrames then s\<lparr>resolved := True\<rparr>
      else (let time = real (currentFrame s) * interval
            in s\<lparr>currentTime := time, seeking := True,
                 signals := signals s @ [SeekIssued time]\<rparr>))"

text \<open>
  \<^verbatim>\<open>
  videoElement.addEventListener('seeked', function onSeeked() {
    ctx.drawImage(videoElement, 0, 0, canvas.width, canvas.height);
    const dataUrl = canvas.toDataURL('image/jpeg', 0.7);
    frames.push(dataUrl.split(',')[1]);
    currentFrame++;
    captureFrame();
    if (currentFrame >= maxFrames) { videoElement.removeEventListener('seeked', onSeeked); }
  });
  \<close>
\<close>

definition onSeeked :: "video \<Rightarrow> nat \<Rightarrow> real \<Rightarrow> sampler \<Rightarrow> sampler" where
  "onSeeked v maxFrames interval s =
     (let s1 = s\<lparr>ex_frames := ex_frames s @ [snapshot v (currentTime s)],
                  currentFrame := Suc (currentFrame s)\<rparr>;
          s2 = captureFrame maxFrames interval s1
      in if currentFrame s2 \<ge> maxFrames then s2\<lparr>listening := False\<rparr> else s2)"

text \<open>
  A well-formed source completes the seek in flight and then fires \<^verbatim>\<open>seeked\<close> once,
  which runs the listener if it is still registered.
\<close>

definition completeSeek :: "video \<Rightarrow> nat \<Rightarrow> real \<Rightarrow> sampler \<Rightarrow> sampler" where
  "completeSeek v maxFrames interval s =
     (let s1 = s\<lparr>seeking := False, signals := signals s @ [Seeked]\<rparr>
      in if listening s1 then onSeeked v maxFrames interval s1 else s1)"

text \<open>The event loop: as long as a seek is in flight, the source completes it.\<close>

function eventLoop :: "video \<Rightarrow> nat \<Rightarrow> real \<Rightarrow> sampler \<Rightarrow> sampler" where
  "eventLoop v maxFrames interval s =
     (if seeking s then eventLoop v maxFrames interval (completeSeek v maxFrames interval s)
      else s)"
  by pat_completeness auto
termination
proof (relation "measure (\<lambda>(v, maxFrames, interval, s).
          if seeking s then Suc (maxFrames - currentFrame s) else 0)")
  show "wf (measure (\<lambda>(v, maxFrames, interval, s).
          if seeking s then Suc (maxFrames - currentFrame s) else 0))"
    by simp
next
  fix v :: video and maxFrames :: nat and interval :: real and s :: sampler
  assume "seeking s"
  then show "((v, maxFrames, interval, completeSeek v maxFrames interval s),
              (v, maxFrames, interval, s))
        \<in> measure (\<lambda>(v, maxFrames, interval, s).
             if seeking s then Suc (maxFrames - currentFrame s) else 0)"
    by (auto simp: completeSeek_def onSeeked_def captureFrame_def Let_def)
qed

declare eventLoop.simps [simp del]

text \<open>
  \<^verbatim>\<open>
  const frames: string[] = [];
  const duration = videoElement.duration;
  const interval = duration / maxFrames;
  let currentFrame = 0;
  ... addEventListener ...
  captureFrame();
  \<close>
  The run from the call of \<^verbatim>\<open>extractFrames\<close> until no event is pending.
\<close>

definition extractFramesRun :: "video \<Rightarrow> nat \<Rightarrow> sampler" where
  "extractFramesRun videoElement maxFrames =
     (let interval = duration videoElement / real maxFrames;
          s0 = \<lparr>ex_frames = [], currentFrame = 0, currentTime = 0, seeking = False,
                 listening = True, resolved = False, signals = []\<rparr>
      in eventLoop videoElement maxFrames interval (captureFrame maxFrames interval s0))"

text \<open>
  The value of the promise: the \<^verbatim>\<open>frames\<close> array once \<^verbatim>\<open>resolve(frames)\<close> has been
  called, \<open>None\<close> while the promise is pending.
\<close>

definition extractFrames :: "video \<Rightarrow> nat \<Rightarrow> string list option" where
  "extractFrames videoElement maxFrames =
     (let s = extractFramesRun videoElement maxFrames
      in if resolved s then Some (ex_frames s) else None)"

section \<open>Result cache and mode controller (App.tsx)\<close>

record ProviderConfig =
  provider :: string
  apiKey :: string
  model :: "string option"

text \<open>
  \<^verbatim>\<open>
  function cacheKey(config: ProviderConfig, mode: string): string {
    return `${config.provider}:${config.model ?? ''}:${mode}`;
  }
  \<close>
\<close>

definition modelOrEmpty :: "ProviderConfig \<Rightarrow> string" where
  "modelOrEmpty config = (case model config of None \<Rightarrow> [] | Some m \<Rightarrow> m)"

definition cacheKey :: "ProviderConfig \<Rightarrow> string \<Rightarrow> string" where
  "cacheKey config mode = provider config @ '':'' @ modelOrEmpty config @ '':'' @ mode"

text \<open>
  Values of type \<^verbatim>\<open>any\<close> that come out of a provider response: JSON values, and
  \<^verbatim>\<open>undefined\<close> for what is missing. An object is the list of its entries in
  property order.
\<close>

datatype json =
    JUndefined
  | JNull
  | JBool bool
  | JNum real
  | JStr string
  | JArr "json list"
  | JObj "(string \<times> json) list"

text \<open>
  \<^verbatim>\<open>type ModeResult = TimecodeResult | DiagramResult | JsonlResult\<close>, the variant
  standing for the \<^verbatim>\<open>type\<close> tag; the fields hold whatever the response carried.
\<close>

datatype ModeResult =
    TimecodeResult json
  | DiagramResult json json json
  | JsonlResult json json

text \<open>
  A \<^verbatim>\<open>TypeError\<close> of the runtime. Its message is chosen by the engine, from the
  operation that failed and the value it failed on; the table of these messages is a
  parameter \<open>tm\<close> of everything that can throw one.
\<close>

type_synonym messages = "string \<Rightarrow> json \<Rightarrow> string"
















text \<open>What \<^verbatim>\<open>generateContent\<close> resolves with.\<close>

record functionCall =
  call_name :: string
  call_args :: json

record response =
  functionCalls :: "functionCall list option"


text \<open>
  What surrounds the component: the Gemini file store, \<^verbatim>\<open>URL.createObjectURL\<close>, the
  prompt of each mode of modes.ts, the outcome of the provider call
  \<^verbatim>\<open>generateContent(prompt, functions(fnMap), uploadedFile, providerConfig)\<close>, which
  throws or resolves with a response, and the engine's TypeError messages.
\<close>

record env =
  gemini :: remote
  createObjectURL :: "browserFile \<Rightarrow> string"
  modes :: "string \<Rightarrow> string option"
  generateContent :: "string \<Rightarrow> UploadedFile \<Rightarrow> ProviderConfig \<Rightarrow> error + response"
  typeErrorMessage :: messages

text \<open>
  The state of \<^verbatim>\<open>App\<close> (its \<^verbatim>\<open>useState\<close> cells; the cell \<^verbatim>\<open>file\<close> is
  \<open>appFile\<close>) and the messages shown by \<^verbatim>\<open>alert\<close>. \<^verbatim>\<open>ResultCache = Record<string, ModeResult>\<close> is a map from keys to
  results; a key without entry is Empty.
\<close>

record appState =
  providerConfig :: "ProviderConfig option"
  vidUrl :: "string option"
  videoElement :: "video option"
  appFile :: "UploadedFile option"
  resultCache :: "string \<Rightarrow> ModeResult option"
  selectedMode :: string
  isLoading :: bool
  isLoadingVideo :: bool
  isExtractingFrames :: bool
  videoError :: bool
  alerts :: "string list"

text \<open>
  \<^verbatim>\<open>
  const getCached = (mode: string): ModeResult | null =>
    providerConfig ? (resultCache[cacheKey(providerConfig, mode)] ?? null) : null;
  const setCached = (mode: string, result: ModeResult) => {
    if (!providerConfig) return;
    setResultCache((prev) => ({ ...prev, [cacheKey(providerConfig, mode)]: result }));
  };
  const clearCacheForMode = (mode: string) => {
    if (!providerConfig) return;
    setResultCache((prev) => {
      const next = { ...prev };
      delete next[cacheKey(providerConfig, mode)];
      return next;
    });
  };
  \<close>
\<close>

definition getCached :: "appState \<Rightarrow> string \<Rightarrow> ModeResult option" where
  "getCached st mode =
     (case providerConfig st of
        None \<Rightarrow> None
      | Some config \<Rightarrow> resultCache st (cacheKey config mode))"


definition clearCacheForMode :: "appState \<Rightarrow> string \<Rightarrow> appState" where
  "clearCacheForMode st mode =
     (case providerConfig st of
        None \<Rightarrow> st
      | Some config \<Rightarrow> st\<lparr>resultCache := (resultCache st)(cacheKey config mode := None)\<rparr>)"

text \<open>
  \<^verbatim>\<open>uploadVideo\<close>, the drop handler; \<open>dropped\<close> is \<^verbatim>\<open>e.dataTransfer.files[0]\<close>.
  \<^verbatim>\<open>
  if (!providerConfig) return;
  const videoFile = e.dataTransfer.files[0];
  if (!videoFile) return;
  setIsLoadingVideo(true); setVideoError(false);
  setResultCache({});
  const objectUrl = URL.createObjectURL(videoFile);
  setVidUrl(objectUrl);
  try {
    if (providerConfig.provider === 'gemini') {
      const res = await uploadFileToGemini(videoFile, providerConfig.apiKey);
      setFile(res);
    } else {
      setFile({ uri: objectUrl, mimeType: videoFile.type, frames: [] });
    }
    setIsLoadingVideo(false);
  } catch (err) { setVideoError(true); setIsLoadingVideo(false); }
  \<close>
  While the upload never returns, the component stays in the state reached before the
  \<^verbatim>\<open>await\<close>.
\<close>

definition uploadVideo :: "env \<Rightarrow> appState \<Rightarrow> browserFile option \<Rightarrow> appState" where
  "uploadVideo e st dropped =
     (case providerConfig st of
        None \<Rightarrow> st
      | Some config \<Rightarrow>
          (case dropped of
             None \<Rightarrow> st
           | Some videoFile \<Rightarrow>
               (let objectUrl = createObjectURL e videoFile;
                    st1 = st\<lparr>isLoadingVideo := True, videoError := False,
                             resultCache := Map.empty, vidUrl := Some objectUrl\<rparr>
                in if provider config = ''gemini'' then
                     (case uploadFileToGemini (gemini e) videoFile of
                        None \<Rightarrow> st1
                      | Some (Inl err, _) \<Rightarrow> st1\<lparr>videoError := True, isLoadingVideo := False\<rparr>
                      | Some (Inr res, _) \<Rightarrow> st1\<lparr>appFile := Some res, isLoadingVideo := False\<rparr>)
                   else st1\<lparr>appFile := Some \<lparr>uri = objectUrl, mimeType = bf_type videoFile,
                                              frames = Some []\<rparr>,
                            isLoadingVideo := False\<rparr>)))"








text \<open>
  \<^verbatim>\<open>
  const handleProviderChange = (config: ProviderConfig) => {
    setProviderConfig(config);
    if (file && vidUrl) {
      if (config.provider === 'gemini') {
        setFile(null); setVidUrl(null); setResultCache({});
      } else {
        setFile((prev) => prev ? { uri: vidUrl, mimeType: prev.mimeType, frames: prev.frames } : null);
      }
    }
  };
  \<close>
  An empty \<^verbatim>\<open>vidUrl\<close> string is falsy. The component defines this handler for a
  change of provider, under the comment "If switching away from Gemini, reset the
  file", and never calls it: no element of the component refers to it.
\<close>

definition handleProviderChange :: "appState \<Rightarrow> ProviderConfig \<Rightarrow> appState" where
  "handleProviderChange st config =
     (let st1 = st\<lparr>providerConfig := Some config\<rparr>
      in case appFile st of
           None \<Rightarrow> st1
         | Some prev \<Rightarrow>
             (case vidUrl st of
                None \<Rightarrow> st1
              | Some url \<Rightarrow>
                  if url = [] then st1
                  else if provider config = ''gemini'' then
                    st1\<lparr>appFile := None, vidUrl := None, resultCache := Map.empty\<rparr>
                  else
                    st1\<lparr>appFile := Some \<lparr>uri = url, mimeType = mimeType prev,
                                            frames = frames prev\<rparr>\<rparr>))"

text \<open>
  What the running component does when the provider is changed: the "Change" button
  is \<^verbatim>\<open>onClick={() => setProviderConfig(null)}\<close>, which shows the setup screen, and
  the setup screen is \<^verbatim>\<open><ProviderSetup onReady={setProviderConfig} />\<close>, whose submit
  calls \<^verbatim>\<open>onReady(cfg)\<close> with the chosen configuration.
\<close>

definition setProviderConfig :: "appState \<Rightarrow> ProviderConfig option \<Rightarrow> appState" where
  "setProviderConfig st config = st\<lparr>providerConfig := config\<rparr>"

definition clickChange :: "appState \<Rightarrow> appState" where
  "clickChange st = setProviderConfig st None"

definition onReady :: "appState \<Rightarrow> ProviderConfig \<Rightarrow> appState" where
  "onReady st config = setProviderConfig st (Some config)"

definition switchProvider :: "appState \<Rightarrow> ProviderConfig \<Rightarrow> appState" where
  "switchProvider st config = onReady (clickChange st) config"

text \<open>Example configurations, states and surroundings.\<close>

definition geminiConfig :: ProviderConfig where
  "geminiConfig = \<lparr>provider = ''gemini'', apiKey = ''k'', model = Some ''gemini-2.5-flash''\<rparr>"

definition openaiConfig :: ProviderConfig where
  "openaiConfig = \<lparr>provider = ''openai'', apiKey = ''k'', model = Some ''gpt-4o''\<rparr>"

definition diagramResult :: ModeResult where
  "diagramResult = DiagramResult (JStr ''sequenceDiagram'') (JStr ''@startuml'') JUndefined"

text \<open>The state of the component when it is mounted.\<close>

definition initialState :: appState where
  "initialState =
     \<lparr>providerConfig = None, vidUrl = None, videoElement = None, appFile = None,
      resultCache = Map.empty, selectedMode = ''Executive Summary'', isLoading = False,
      isLoadingVideo = False, isExtractingFrames = False, videoError = False, alerts = []\<rparr>"

text \<open>A Gemini session with an uploaded video and a cached Diagram result.\<close>

definition cachedState :: appState where
  "cachedState =
     initialState
       \<lparr>providerConfig := Some geminiConfig,
        vidUrl := Some ''blob:video'',
        appFile := Some \<lparr>uri = ''https://files/v1'', mimeType = ''video/mp4'', frames = None\<rparr>,
        resultCache := [cacheKey geminiConfig ''Diagram'' \<mapsto> diagramResult],
        selectedMode := ''Diagram''\<rparr>"

text \<open>
  The provider ids of \<^verbatim>\<open>PROVIDERS\<close> and the mode names of modes.ts, the only
  providers and modes the component passes to \<^verbatim>\<open>cacheKey\<close>. The model of a
  configuration is whatever string the session storage or the selector holds.
\<close>

definition providerIds :: "string list" where
  "providerIds = [''gemini'', ''openai'', ''anthropic'']"

definition modeNames :: "string list" where
  "modeNames = [''Executive Summary'', ''Workflow Steps'', ''Diagram'', ''JSONL Context'']"




text \<open>
  A string node whose description is present and empty, a node whose type is present
  and empty, and an object node with an own property named \<^verbatim>\<open>__proto__\<close> (as
  \<^verbatim>\<open>JSON.parse\<close> creates it) beside a property \<^verbatim>\<open>time\<close>.
\<close>

definition emptyDescriptionNode :: "unit schema" where
  "emptyDescriptionNode = Schema (Some ''STRING'') (Some []) None None None []"

definition emptyTypeNode :: "unit schema" where
  "emptyTypeNode = Schema (Some []) (Some ''A note'') None None None []"

definition protoPropertyNode :: "unit schema" where
  "protoPropertyNode =
     Schema (Some ''OBJECT'') None None
       (Some [(''__proto__'', Schema (Some ''STRING'') None None None None []),
              (''time'', Schema (Some ''STRING'') None None None None [])])
       None []"

text \<open>
  Thirty distinct frames, the number \<^verbatim>\<open>extractFrames(videoElement, 30)\<close> delivers in
  \<^verbatim>\<open>runMode\<close>, and an uploaded file that carries them.
\<close>

definition frames30 :: "string list" where
  "frames30 = map (\<lambda>i. replicate i CHR ''f'') [0..<30]"

definition file30 :: UploadedFile where
  "file30 = \<lparr>uri = ''blob:video'', mimeType = ''video/mp4'', frames = Some frames30\<rparr>"

text \<open>An uploaded file that carries the forty-five frames.\<close>

definition file45 :: UploadedFile where
  "file45 = \<lparr>uri = ''blob:video'', mimeType = ''video/mp4'', frames = Some frames45\<rparr>"

text \<open>
  The two shapes the sampler state takes in a run: waiting for the seek to the
  position of frame \<open>i\<close> with the frames before \<open>i\<close> captured, and finished.
\<close>

definition awaitingSeek :: "video \<Rightarrow> real \<Rightarrow> nat \<Rightarrow> sampler" where
  "awaitingSeek v interval i =
     \<lparr>ex_frames = map (\<lambda>j. snapshot v (real j * interval)) [0..<i],
      currentFrame = i,
      currentTime = real i * interval,
      seeking = True,
      listening = True,
      resolved = False,
      signals = concat (map (\<lambda>j. [SeekIssued (real j * interval), Seeked]) [0..<i])
                @ [SeekIssued (real i * interval)]\<rparr>"

definition finished :: "video \<Rightarrow> real \<Rightarrow> nat \<Rightarrow> sampler" where
  "finished v interval n =
     \<lparr>ex_frames = map (\<lambda>j. snapshot v (real j * interval)) [0..<n],
      currentFrame = n,
      currentTime = real (n - 1) * interval,
      seeking = False,
      listening = False,
      resolved = True,
      signals = concat (map (\<lambda>j. [SeekIssued (real j * interval), Seeked]) [0..<n])\<rparr>"

text \<open>A six-second video whose frame at position \<open>t\<close> is recognisable, as an example.\<close>

definition sixSeconds :: video where
  "sixSeconds =
     \<lparr>duration = 6,
      snapshot = (\<lambda>t. if t = 0 then ''frame@0'' else if t = 2 then ''frame@2''
                      else if t = 4 then ''frame@4'' else ''frame'')\<rparr>"


section \<open>Properties of the schema normalizer\<close>

lemma toLowerChar_idem: "toLowerChar (toLowerChar c) = toLowerChar c"
  by (auto simp: toLowerChar_def Let_def)

lemma toLowerCase_idem: "toLowerCase (toLowerCase s) = toLowerCase s"
  by (simp add: toLowerCase_def toLowerChar_idem)

lemma toLowerCase_Nil_iff: "toLowerCase s = [] \<longleftrightarrow> s = []"
  by (simp add: toLowerCase_def)

lemma truthyStr_idem: "truthyStr (truthyStr f) = truthyStr f"
  by (simp add: truthyStr_def split: option.splits)

lemma truthyStr_lower:
  "truthyStr (map_option toLowerCase (truthyStr f)) = map_option toLowerCase (truthyStr f)"
  by (simp add: truthyStr_def toLowerCase_Nil_iff split: option.splits)

lemma map_of_stored:
  "storedKey k \<Longrightarrow>
   map_of (map (\<lambda>kv. (fst kv, f (snd kv))) (filter (\<lambda>kv. storedKey (fst kv)) ps)) k
     = map_option f (map_of ps k)"
  by (induction ps) auto

lemma keys_stored:
  "set (map fst (map (\<lambda>kv. (fst kv, f (snd kv))) (filter (\<lambda>kv. storedKey (fst kv)) ps)))
     = set (map fst ps) - {''__proto__''}"
  by (auto simp: storedKey_def)

lemma convert_fields:
  "stype (convertSchemaToOpenAI (Some n)) = map_option toLowerCase (truthyStr (stype n))"
  "description (convertSchemaToOpenAI (Some n)) = truthyStr (description n)"
  "required (convertSchemaToOpenAI (Some n)) = required n"
  "properties (convertSchemaToOpenAI (Some n))
     = map_option (\<lambda>entries. map (\<lambda>kv. (fst kv, convertSchemaToOpenAI (Some (snd kv))))
                                (filter (\<lambda>kv. storedKey (fst kv)) entries)) (properties n)"
  "items (convertSchemaToOpenAI (Some n))
     = map_option (\<lambda>c. convertSchemaToOpenAI (Some c)) (items n)"
  "other (convertSchemaToOpenAI (Some n)) = []"
  by (cases n; simp)+

lemma convert_properties:
  "(properties (convertSchemaToOpenAI (Some n)) = None \<longleftrightarrow> properties n = None)
   \<and> (\<forall>ps. properties n = Some ps \<longrightarrow>
        (\<exists>qs. properties (convertSchemaToOpenAI (Some n)) = Some qs
           \<and> set (map fst qs) = set (map fst ps) - {''__proto__''}
           \<and> (\<forall>k. k \<noteq> ''__proto__'' \<longrightarrow>
                 map_of qs k = map_option (\<lambda>c. convertSchemaToOpenAI (Some c)) (map_of ps k))))"
proof (cases "properties n")
  case None
  then show ?thesis by (simp add: convert_fields)
next
  case (Some ps)
  let ?qs = "map (\<lambda>kv. (fst kv, convertSchemaToOpenAI (Some (snd kv))))
               (filter (\<lambda>kv. storedKey (fst kv)) ps)"
  have q: "properties (convertSchemaToOpenAI (Some n)) = Some ?qs"
    using Some by (simp add: convert_fields)
  have k: "set (map fst ?qs) = set (map fst ps) - {''__proto__''}"
    by (rule keys_stored)
  have m: "\<forall>k. k \<noteq> ''__proto__'' \<longrightarrow>
      map_of ?qs k = map_option (\<lambda>c. convertSchemaToOpenAI (Some c)) (map_of ps k)"
    using map_of_stored [where f = "\<lambda>c. convertSchemaToOpenAI (Some c)" and ps = ps]
    by (simp add: storedKey_def)
  show ?thesis
  proof (intro conjI allI impI)
    show "(properties (convertSchemaToOpenAI (Some n)) = None) = (properties n = None)"
      using Some q by simp
  next
    fix ps'
    assume "properties n = Some ps'"
    with Some have e: "ps' = ps" by simp
    show "\<exists>qs. properties (convertSchemaToOpenAI (Some n)) = Some qs
           \<and> set (map fst qs) = set (map fst ps') - {''__proto__''}
           \<and> (\<forall>k. k \<noteq> ''__proto__'' \<longrightarrow>
                 map_of qs k = map_option (\<lambda>c. convertSchemaToOpenAI (Some c)) (map_of ps' k))"
      unfolding e by (rule exI [of _ ?qs]) (rule conjI [OF q conjI [OF k m]])
  qed
qed

lemma nodeAt_convert:
  "nodeAt s \<pi> = Some n \<Longrightarrow> Prop ''__proto__'' \<notin> set \<pi> \<Longrightarrow>
   nodeAt (convertSchemaToOpenAI (Some s)) \<pi> = Some (convertSchemaToOpenAI (Some n))"
proof (induction s \<pi> rule: nodeAt.induct)
  case (1 s)
  then show ?case by simp
next
  case (2 s k \<pi>)
  from "2.prems" obtain ps c where ps: "properties s = Some ps" and c: "map_of ps k = Some c"
    and n: "nodeAt c \<pi> = Some n"
    by (auto split: option.splits)
  from "2.prems"(2) have k: "storedKey k" and rest: "Prop ''__proto__'' \<notin> set \<pi>"
    by (auto simp: storedKey_def)
  have "nodeAt (convertSchemaToOpenAI (Some c)) \<pi> = Some (convertSchemaToOpenAI (Some n))"
    using "2.IH" ps c n rest by simp
  moreover have "properties (convertSchemaToOpenAI (Some s))
      = Some (map (\<lambda>kv. (fst kv, convertSchemaToOpenAI (Some (snd kv))))
                (filter (\<lambda>kv. storedKey (fst kv)) ps))"
    using ps by (simp add: convert_fields)
  ultimately show ?case
    by (simp add: map_of_stored [OF k, where f = "\<lambda>v. convertSchemaToOpenAI (Some v)"] c)
next
  case (3 s \<pi>)
  from "3.prems" obtain c where c: "items s = Some c" and n: "nodeAt c \<pi> = Some n"
    by (auto split: option.splits)
  have "nodeAt (convertSchemaToOpenAI (Some c)) \<pi> = Some (convertSchemaToOpenAI (Some n))"
    using "3.IH" "3.prems"(2) c n by simp
  moreover have "items (convertSchemaToOpenAI (Some s)) = Some (convertSchemaToOpenAI (Some c))"
    using c by (simp add: convert_fields)
  ultimately show ?case by simp
qed

text \<open>
  C1, as the claim states it, fails in three ways. The tests \<^verbatim>\<open>if (schema.type)\<close> and
  \<^verbatim>\<open>if (schema.description)\<close> are tests for a non-empty string, so a description
  that is present and empty is dropped (\<^verbatim>\<open>{type: 'STRING', description: ''}\<close> becomes
  \<^verbatim>\<open>{type: 'string'}\<close>), and so is a type that is present and empty. And a property
  named \<^verbatim>\<open>__proto__\<close> is not in the property map of the output, whose key set is
  then not the key set of the input.
\<close>

theorem convert_drops_empty_and_proto:
  "description emptyDescriptionNode = Some []
   \<and> description (convertSchemaToOpenAI (Some emptyDescriptionNode)) = None
   \<and> stype emptyTypeNode = Some []
   \<and> stype (convertSchemaToOpenAI (Some emptyTypeNode)) = None
   \<and> map_option (map fst) (properties protoPropertyNode) = Some [''__proto__'', ''time'']
   \<and> map_option (map fst) (properties (convertSchemaToOpenAI (Some protoPropertyNode)))
       = Some [''time'']"
  by (simp add: emptyDescriptionNode_def emptyTypeNode_def protoPropertyNode_def truthyStr_def
      storedKey_def)

text \<open>
  C1, amended: the normalizer is total, it returns the empty object for a null or
  undefined input, and at every recursion level (every node \<open>n\<close> reached by a path
  \<open>\<pi>\<close> of property and items steps, none of them through a property named
  \<^verbatim>\<open>__proto__\<close>) the output has, at the same path, the normalized node. The
  normalized node carries the lower-cased type when the type is a non-empty string,
  the description when it is a non-empty string, the required array as it is, a
  property map exactly when the node has one, with the same key set apart from the
  key \<^verbatim>\<open>__proto__\<close> and with the recursively normalized node under each key, and
  the recursively normalized items node.
\<close>

theorem convert_preserves_structure:
  "convertSchemaToOpenAI None = emptyObject
   \<and> (Prop ''__proto__'' \<notin> set \<pi> \<and> nodeAt s \<pi> = Some n \<longrightarrow>
        nodeAt (convertSchemaToOpenAI (Some s)) \<pi> = Some (convertSchemaToOpenAI (Some n))
        \<and> stype (convertSchemaToOpenAI (Some n)) = map_option toLowerCase (truthyStr (stype n))
        \<and> description (convertSchemaToOpenAI (Some n)) = truthyStr (description n)
        \<and> required (convertSchemaToOpenAI (Some n)) = required n
        \<and> (properties (convertSchemaToOpenAI (Some n)) = None \<longleftrightarrow> properties n = None)
        \<and> (\<forall>ps. properties n = Some ps \<longrightarrow>
             (\<exists>qs. properties (convertSchemaToOpenAI (Some n)) = Some qs
                \<and> set (map fst qs) = set (map fst ps) - {''__proto__''}
                \<and> (\<forall>k. k \<noteq> ''__proto__'' \<longrightarrow>
                      map_of qs k
                        = map_option (\<lambda>c. convertSchemaToOpenAI (Some c)) (map_of ps k))))
        \<and> items (convertSchemaToOpenAI (Some n))
            = map_option (\<lambda>c. convertSchemaToOpenAI (Some c)) (items n))"
proof (intro conjI impI)
  show "convertSchemaToOpenAI None = emptyObject" by simp
next
  assume "Prop ''__proto__'' \<notin> set \<pi> \<and> nodeAt s \<pi> = Some n"
  then show "nodeAt (convertSchemaToOpenAI (Some s)) \<pi> = Some (convertSchemaToOpenAI (Some n))"
    by (simp add: nodeAt_convert)
qed (rule convert_fields convert_properties [THEN conjunct1]
       convert_properties [THEN conjunct2])+

theorem convert_preserves_structure_witness:
  "nodeAt setTimecodesParameters [Prop ''timecodes'', Items, Prop ''time'']
     = Some (Schema (Some ''STRING'') (Some ''Timecode in MM:SS or HH:MM:SS format'')
               None None None [])
   \<and> nodeAt (convertSchemaToOpenAI (Some setTimecodesParameters))
        [Prop ''timecodes'', Items, Prop ''time'']
     = Some (Schema (Some ''string'') (Some ''Timecode in MM:SS or HH:MM:SS format'')
               None None None [])"
proof -
  let ?n = "Schema (Some ''STRING'') (Some ''Timecode in MM:SS or HH:MM:SS format'')
              None None None ([] :: (string \<times> unit) list)"
  have h: "nodeAt setTimecodesParameters [Prop ''timecodes'', Items, Prop ''time''] = Some ?n"
    by (simp add: setTimecodesParameters_def)
  have p: "Prop ''__proto__'' \<notin> set [Prop ''timecodes'', Items, Prop ''time'']"
    by simp
  have l: "convertSchemaToOpenAI (Some ?n)
      = Schema (Some ''string'') (Some ''Timecode in MM:SS or HH:MM:SS format'') None None None []"
    by code_simp
  from convert_preserves_structure
         [of "[Prop ''timecodes'', Items, Prop ''time'']" setTimecodesParameters ?n] h p
  have "nodeAt (convertSchemaToOpenAI (Some setTimecodesParameters))
          [Prop ''timecodes'', Items, Prop ''time''] = Some (convertSchemaToOpenAI (Some ?n))"
    by blast
  with h l show ?thesis by simp
qed

text \<open>
  C10: the normalizer is idempotent; normalizing its own output gives the same result
  as normalizing once.
\<close>

theorem convert_idempotent:
  "convertSchemaToOpenAI (Some (convertSchemaToOpenAI x)) = convertSchemaToOpenAI x"
proof (induction x rule: convertSchemaToOpenAI.induct)
  case 1
  show ?case by (simp add: emptyObject_def truthyStr_def)
next
  case (2 t d r p i x)
  let ?g = "\<lambda>kv. (fst kv, convertSchemaToOpenAI (Some (snd kv)))"
  let ?P = "\<lambda>kv. storedKey (fst kv)"
  have lower: "map_option toLowerCase (truthyStr (map_option toLowerCase (truthyStr t)))
      = map_option toLowerCase (truthyStr t)"
    by (simp add: truthyStr_lower option.map_comp comp_def toLowerCase_idem cong: option.map_cong)
  have entries: "map ?g (filter ?P (map ?g (filter ?P a))) = map ?g (filter ?P a)"
    if "p = Some a" for a
  proof -
    have "filter ?P (map ?g (filter ?P a)) = map ?g (filter ?P a)"
      by (simp add: filter_map comp_def)
    moreover have "map ?g (map ?g (filter ?P a)) = map ?g (filter ?P a)"
      using "2.IH"(1) [OF that] by (simp add: comp_def)
    ultimately show ?thesis by simp
  qed
  have props: "map_option (\<lambda>entries. map ?g (filter ?P entries))
        (map_option (\<lambda>entries. map ?g (filter ?P entries)) p)
      = map_option (\<lambda>entries. map ?g (filter ?P entries)) p"
    using entries by (cases p) simp_all
  have its: "map_option (\<lambda>v. convertSchemaToOpenAI (Some v))
        (map_option (\<lambda>v. convertSchemaToOpenAI (Some v)) i)
      = map_option (\<lambda>v. convertSchemaToOpenAI (Some v)) i"
    using "2.IH"(2) by (cases i) auto
  show ?case
    by (simp add: lower props its truthyStr_idem)
qed

theorem convert_idempotent_witness:
  "convertSchemaToOpenAI (Some (convertSchemaToOpenAI (Some setTimecodesParameters)))
     = convertSchemaToOpenAI (Some setTimecodesParameters)"
  using convert_idempotent [of "Some setTimecodesParameters"] by simp

section \<open>Properties of the frame sub-sampling and of the Anthropic request\<close>

lemma zip_upt_nth: "zip xs [0..<length xs] = map (\<lambda>i. (xs ! i, i)) [0..<length xs]"
  by (rule nth_equalityI) simp_all

lemma filterIndexed_nth:
  "filterIndexed p xs = map (\<lambda>i. xs ! i) (filter (\<lambda>i. p (xs ! i) i) [0..<length xs])"
  by (simp add: filterIndexed_def zip_upt_nth filter_map comp_def)

lemma ceil_div_dvd:
  assumes "0 < st" and "L mod st = 0"
  shows "(L + (st - 1)) div st = L div (st::nat)"
proof (rule div_nat_eqI)
  have eq: "st * (L div st) = L" using assms(2) by auto
  show "st * (L div st) \<le> L + (st - 1)" using eq by simp
  show "L + (st - 1) < st * Suc (L div st)" using eq assms(1) by simp
qed

lemma ceil_div_ndvd:
  assumes "0 < st" and "L mod st \<noteq> 0"
  shows "(L + (st - 1)) div st = Suc (L div (st::nat))"
proof (rule div_nat_eqI)
  have eq: "st * (L div st) + L mod st = L" by simp
  have lt: "L mod st < st" using assms(1) by simp
  have ex: "st * Suc (L div st) = st * (L div st) + st" by simp
  show "st * Suc (L div st) \<le> L + (st - 1)" unfolding ex using eq lt assms(2) by arith
  have ex2: "st * Suc (Suc (L div st)) = st * (L div st) + st + st" by simp
  show "L + (st - 1) < st * Suc (Suc (L div st))" unfolding ex2 using eq lt assms(1) by arith
qed

lemma ceil_div_Suc: "0 < st \<Longrightarrow> (Suc L + (st - 1)) div st = Suc (L div (st::nat))"
  by simp

lemma ceil_div_le:
  assumes "0 < st"
  shows "(L + (st - 1)) div st \<le> (L::nat)"
proof (cases "L mod st = 0")
  case True
  have "(L + (st - 1)) div st = L div st" using assms True by (rule ceil_div_dvd)
  then show ?thesis by (simp only: div_le_dividend)
next
  case False
  have eq: "(L + (st - 1)) div st = Suc (L div st)" using assms False by (rule ceil_div_ndvd)
  have "L div st < L"
  proof (cases "st = 1")
    case True
    with False show ?thesis by simp
  next
    case False
    with assms have "1 < st" by simp
    moreover have "0 < L" using \<open>L mod st \<noteq> 0\<close> by (cases L) simp_all
    ultimately show ?thesis by simp
  qed
  then show ?thesis unfolding eq by simp
qed

text \<open>The multiples of the stride below \<open>L\<close>, cut after the first \<open>k\<close>.\<close>

lemma filter_multiples:
  assumes "0 < st"
  shows "filter (\<lambda>i. i mod st = 0 \<and> i div st < k) [0..<L]
       = map (\<lambda>j. j * st) [0..<min k ((L + (st - 1)) div st)]"
proof (induction L)
  case 0
  from assms show ?case by simp
next
  case (Suc L)
  let ?c = "(L + (st - 1)) div st"
  have S: "(Suc L + (st - 1)) div st = Suc (L div st)"
    using assms by (rule ceil_div_Suc)
  show ?case
  proof (cases "L mod st = 0")
    case True
    then have L: "L div st * st = L" by auto
    have c: "?c = L div st" using assms True by (rule ceil_div_dvd)
    show ?thesis
    proof (cases "L div st < k")
      case lt: True
      then have "min k (Suc (L div st)) = Suc (L div st)" "min k (L div st) = L div st"
        by simp_all
      with True lt Suc L c S show ?thesis by simp
    next
      case ge: False
      then have "min k (Suc (L div st)) = k" "min k (L div st) = k"
        by simp_all
      with True ge Suc c S show ?thesis by simp
    qed
  next
    case False
    have c: "?c = Suc (L div st)" using assms False by (rule ceil_div_ndvd)
    with False Suc S show ?thesis by simp
  qed
qed

lemma take_upt0: "take k [0..<n] = [0..<min k n]"
  by (cases "k \<le> n") (simp_all add: min_def)

lemma take_filter_multiples:
  assumes "0 < st"
  shows "take k (filter (\<lambda>i. i mod st = 0) [0..<L])
       = filter (\<lambda>i. i mod st = 0 \<and> i div st < k) [0..<L]"
proof -
  let ?c = "(L + (st - 1)) div st"
  have "filter (\<lambda>i. i mod st = 0) [0..<L] = filter (\<lambda>i. i mod st = 0 \<and> i div st < L) [0..<L]"
    by (rule filter_cong) (auto intro: le_less_trans [OF div_le_dividend])
  also have "\<dots> = map (\<lambda>j. j * st) [0..<min L ?c]"
    by (rule filter_multiples [OF assms])
  also have "min L ?c = ?c"
    using ceil_div_le [OF assms, of L] by (simp add: min_def)
  finally have all: "filter (\<lambda>i. i mod st = 0) [0..<L] = map (\<lambda>j. j * st) [0..<?c]" .
  have "take k (map (\<lambda>j. j * st) [0..<?c]) = map (\<lambda>j. j * st) [0..<min k ?c]"
    by (simp only: take_map take_upt0)
  then show ?thesis
    by (simp only: all filter_multiples [OF assms])
qed

lemma sampledFrames_nth:
  "sampledFrames fs = map (\<lambda>i. fs ! i)
     (filter (\<lambda>i. i mod step (length fs) = 0 \<and> i div step (length fs) < maxFramesSent)
        [0..<length fs])"
proof -
  have pos: "0 < step (length fs)" by (simp add: step_def)
  have "sampledFrames fs
      = take maxFramesSent
          (map (\<lambda>i. fs ! i) (filter (\<lambda>i. i mod step (length fs) = 0) [0..<length fs]))"
    by (simp only: sampledFrames_def filterIndexed_nth)
  also have "\<dots> = map (\<lambda>i. fs ! i)
      (take maxFramesSent (filter (\<lambda>i. i mod step (length fs) = 0) [0..<length fs]))"
    by (simp only: take_map)
  finally show ?thesis
    by (simp only: take_filter_multiples [OF pos])
qed

lemma length_sampledFrames: "length (sampledFrames fs) \<le> maxFramesSent"
  by (simp add: sampledFrames_def)

lemma filterIndexed_all: "filterIndexed (\<lambda>_ i. i mod 1 = 0) fs = fs"
  by (simp add: filterIndexed_def)

lemma sampledFrames_prefix:
  assumes "length fs < 40"
  shows "sampledFrames fs = take 20 fs"
proof -
  have "length fs div 20 \<le> 1" using assms by simp
  then have "step (length fs) = 1" by (simp add: step_def maxFramesSent_def)
  then show ?thesis
    by (simp add: sampledFrames_def maxFramesSent_def filterIndexed_def)
qed

text \<open>
  C2 does not hold of the code, whose own comment is "Sample up to 20 frames evenly".
  For the thirty frames that \<^verbatim>\<open>extractFrames(videoElement, 30)\<close> delivers, the
  stride is \<^verbatim>\<open>max(1, floor(30 / 20)) = 1\<close>, so every index satisfies
  \<^verbatim>\<open>i % stride == 0\<close>, and the truncation keeps the first twenty frames: the frame
  at index 25 is not sent, and the frames sent are the prefix 0..19 of the sequence,
  not a spread over it. (Sampling the sequence of the indices themselves shows which
  positions are kept.)
\<close>

theorem sampledFrames_30_is_prefix:
  "frames file30 = Some frames30 \<and> length frames30 = 30
   \<and> step (length frames30) = 1
   \<and> 25 mod step (length frames30) = 0
   \<and> frames30 ! 25 \<notin> set (framesToSend file30)
   \<and> framesToSend file30 = take 20 frames30
   \<and> sampledFrames [0..<30] = [0..<20]"
proof -
  have l: "length frames30 = 30" by (simp add: frames30_def)
  have s: "sampledFrames frames30 = take 20 frames30"
    by (rule sampledFrames_prefix) (simp add: l)
  have i: "sampledFrames [0..<30] = take 20 [0..<30]"
    by (rule sampledFrames_prefix) simp
  have t: "take 20 [0..<30] = [0..<20::nat]" by (simp add: take_upt)
  have st: "step 30 = 1" by (simp add: step_def maxFramesSent_def)
  have n: "frames30 ! 25 \<notin> set (take 20 frames30)"
    by code_simp
  show ?thesis
    using l s i t st n by (simp add: framesToSend_def file30_def)
qed

text \<open>
  C3: for an uploaded file that carries 45 frames, the body built by
  \<^verbatim>\<open>generateWithAnthropic\<close> has one user message whose content is twenty image blocks
  (the frames at the even positions 0, 2, ..., 38) followed by the single text block.
\<close>

theorem anthropic_45_frames:
  assumes "frames uf = Some fs" and "length fs = 45"
  shows "messages (anthropicRequestBody text fns uf m)
           = [\<lparr>role = ''user'',
               content =
                 map (\<lambda>j. ImageBlock \<lparr>source_type = ''base64'', media_type = ''image/jpeg'',
                                       data = fs ! (2 * j)\<rparr>) [0..<20]
                 @ [TextBlock text]\<rparr>]
         \<and> length (filter isImage (anthropicUserContent text uf)) = 20
         \<and> filter isText (anthropicUserContent text uf) = [TextBlock text]
         \<and> list_all isImage (take 20 (anthropicUserContent text uf))
         \<and> drop 20 (anthropicUserContent text uf) = [TextBlock text]"
proof -
  have st: "step 45 = 2" by (simp add: step_def maxFramesSent_def)
  have "filter (\<lambda>i. i mod 2 = 0 \<and> i div 2 < 20) [0..<45] = map (\<lambda>j. 2 * j) [0..<20::nat]"
    by code_simp
  then have "sampledFrames fs = map (\<lambda>j. fs ! (2 * j)) [0..<20]"
    using assms(2) by (simp add: sampledFrames_nth st maxFramesSent_def comp_def)
  then have c: "anthropicUserContent text uf
      = map (\<lambda>j. ImageBlock \<lparr>source_type = ''base64'', media_type = ''image/jpeg'',
                            data = fs ! (2 * j)\<rparr>) [0..<20]
        @ [TextBlock text]"
    using assms by (simp add: anthropicUserContent_def framesToSend_def comp_def)
  have "messages (anthropicRequestBody text fns uf m)
      = [\<lparr>role = ''user'', content = anthropicUserContent text uf\<rparr>]"
    by (simp add: anthropicRequestBody_def)
  then show ?thesis
    unfolding c by (simp add: list_all_iff comp_def)
qed

theorem anthropic_45_frames_witness:
  "frames file45 = Some frames45 \<and> length frames45 = 45
   \<and> length (filter isImage (anthropicUserContent ''Analyse'' file45)) = 20
   \<and> drop 20 (anthropicUserContent ''Analyse'' file45) = [TextBlock ''Analyse'']"
proof -
  have a: "frames file45 = Some frames45" by (simp add: file45_def)
  have b: "length frames45 = 45" by (simp add: frames45_def)
  from anthropic_45_frames [OF a b] a b show ?thesis by blast
qed

section \<open>Properties of the Gemini upload pipeline\<close>

lemma pollLoop_stop:
  "fh_state cur \<noteq> ''PROCESSING'' \<Longrightarrow> pollLoop r name n cur tr = Some (Inr cur, tr)"
  by (subst pollLoop.simps) simp

lemma pollLoop_steps:
  assumes "fh_state cur = ''PROCESSING''"
    and "\<forall>j. n \<le> j \<and> j < n + d \<longrightarrow> (\<exists>h. files_get r name j = Inr h \<and> fh_state h = ''PROCESSING'')"
    and "files_get r name (n + d) = Inr g"
    and "fh_state g \<noteq> ''PROCESSING''"
  shows "pollLoop r name n cur tr
       = Some (Inr g, tr @ concat (replicate (Suc d) [Sleep 5000, CallGet name]))"
  using assms
proof (induction d arbitrary: n cur tr)
  case 0
  then show ?case
    by (subst pollLoop.simps) (simp add: pollLoop_stop)
next
  case (Suc d)
  from Suc.prems(2) obtain h where h: "files_get r name n = Inr h" "fh_state h = ''PROCESSING''"
    by (metis le_refl less_add_Suc1 add_Suc_right)
  have "pollLoop r name (Suc n) h (tr @ [Sleep 5000, CallGet name])
      = Some (Inr g, (tr @ [Sleep 5000, CallGet name]) @ concat (replicate (Suc d) [Sleep 5000, CallGet name]))"
  proof (rule Suc.IH [OF h(2)])
    show "\<forall>j. Suc n \<le> j \<and> j < Suc n + d \<longrightarrow> (\<exists>h. files_get r name j = Inr h \<and> fh_state h = ''PROCESSING'')"
      using Suc.prems(2) by simp
    show "files_get r name (Suc n + d) = Inr g" using Suc.prems(3) by simp
    show "fh_state g \<noteq> ''PROCESSING''" by (rule Suc.prems(4))
  qed
  then show ?case
    using Suc.prems(1) h by (subst pollLoop.simps) simp
qed

lemma pollLoop_forever:
  "pollLoop r name n cur tr = Some y \<Longrightarrow>
   fh_state cur = ''PROCESSING'' \<longrightarrow>
   (\<forall>j\<ge>n. \<exists>h. files_get r name j = Inr h \<and> fh_state h = ''PROCESSING'') \<longrightarrow> False"
  apply (erule pollLoop.raw_induct [rotated, where P = "\<lambda>r name n cur tr y.
     fh_state cur = ''PROCESSING'' \<longrightarrow>
     (\<forall>j\<ge>n. \<exists>h. files_get r name j = Inr h \<and> fh_state h = ''PROCESSING'') \<longrightarrow> False"])
  subgoal premises prems for loop r name k getFile trace ra
  proof (intro impI)
    assume p: "fh_state getFile = ''PROCESSING''"
      and a: "\<forall>j\<ge>k. \<exists>h. files_get r name j = Inr h \<and> fh_state h = ''PROCESSING''"
    from a obtain h where h: "files_get r name k = Inr h" "fh_state h = ''PROCESSING''"
      by blast
    from prems(2) p h have "loop r name (Suc k) h (trace @ [Sleep 5000, CallGet name]) = Some ra"
      by simp
    from prems(1) [OF this] h(2) a show False
      by (auto dest: Suc_leD)
  qed
  done

lemma uploadFileToGemini_never:
  assumes up: "files_upload r f = Inr up"
    and proc: "\<forall>j. \<exists>h. files_get r (fh_name up) j = Inr h \<and> fh_state h = ''PROCESSING''"
  shows "uploadFileToGemini r f = None"
proof -
  from proc obtain g0 where g0: "files_get r (fh_name up) 0 = Inr g0" "fh_state g0 = ''PROCESSING''"
    by blast
  have "pollLoop r (fh_name up) 1 g0 [CallUpload, CallGet (fh_name up)] = None"
  proof (cases "pollLoop r (fh_name up) 1 g0 [CallUpload, CallGet (fh_name up)]")
    case None
    then show ?thesis .
  next
    case (Some y)
    from pollLoop_forever [OF Some] g0(2) proc show ?thesis by blast
  qed
  with up g0 show ?thesis
    by (simp add: uploadFileToGemini_def)
qed

lemma uploadFileToGemini_run:
  assumes up: "files_upload r f = Inr up"
    and proc: "\<forall>j<k. \<exists>h. files_get r (fh_name up) j = Inr h \<and> fh_state h = ''PROCESSING''"
    and fin: "files_get r (fh_name up) k = Inr g"
    and st: "fh_state g \<noteq> ''PROCESSING''"
  shows "uploadFileToGemini r f
       = Some (if fh_state g = ''FAILED'' then Inl ProcessingError
               else Inr \<lparr>uri = fh_uri g, mimeType = fh_mimeType g, frames = None\<rparr>,
               [CallUpload, CallGet (fh_name up)]
               @ concat (replicate k [Sleep 5000, CallGet (fh_name up)]))"
proof (cases k)
  case 0
  with fin st up show ?thesis
    by (simp add: uploadFileToGemini_def pollLoop_stop)
next
  case (Suc d)
  from proc Suc obtain g0 where g0: "files_get r (fh_name up) 0 = Inr g0" "fh_state g0 = ''PROCESSING''"
    by auto
  have "pollLoop r (fh_name up) 1 g0 [CallUpload, CallGet (fh_name up)]
      = Some (Inr g, [CallUpload, CallGet (fh_name up)]
                @ concat (replicate (Suc d) [Sleep 5000, CallGet (fh_name up)]))"
  proof (rule pollLoop_steps [OF g0(2)])
    show "\<forall>j. 1 \<le> j \<and> j < 1 + d \<longrightarrow> (\<exists>h. files_get r (fh_name up) j = Inr h \<and> fh_state h = ''PROCESSING'')"
      using proc Suc by simp
    show "files_get r (fh_name up) (1 + d) = Inr g" using fin Suc by simp
    show "fh_state g \<noteq> ''PROCESSING''" by (rule st)
  qed
  with up g0 Suc show ?thesis
    by (simp add: uploadFileToGemini_def)
qed

text \<open>
  C4: when the upload is accepted and the processing states read by the successive
  status requests are \<^verbatim>\<open>PROCESSING\<close> until request \<open>k\<close> reads another state, the call
  returns; if that state is \<^verbatim>\<open>FAILED\<close> it fails with the processing error
  (\<^verbatim>\<open>Error('File processing failed.')\<close>) and returns no value, and otherwise it
  returns the uri and mimeType of that last handle.
\<close>

theorem upload_failed_or_handle:
  assumes "files_upload r f = Inr up"
    and "\<forall>j<k. \<exists>h. files_get r (fh_name up) j = Inr h \<and> fh_state h = ''PROCESSING''"
    and "files_get r (fh_name up) k = Inr g"
    and "fh_state g \<noteq> ''PROCESSING''"
  shows "map_option fst (uploadFileToGemini r f)
       = Some (if fh_state g = ''FAILED'' then Inl ProcessingError
               else Inr \<lparr>uri = fh_uri g, mimeType = fh_mimeType g, frames = None\<rparr>)"
  by (simp add: uploadFileToGemini_run [OF assms])

theorem upload_failed_or_handle_witness:
  "map_option fst (uploadFileToGemini (scriptedRemote [''PROCESSING'', ''FAILED'']) clip)
     = Some (Inl (Error ''File processing failed.''))
   \<and> map_option fst (uploadFileToGemini (scriptedRemote [''PROCESSING'', ''ACTIVE'']) clip)
     = Some (Inr \<lparr>uri = ''https://files/v1'', mimeType = ''video/mp4'', frames = None\<rparr>)"
  using upload_failed_or_handle [of "scriptedRemote [''PROCESSING'', ''FAILED'']" clip
      "handleIn ''PROCESSING''" 1 "handleIn ''FAILED''"]
    upload_failed_or_handle [of "scriptedRemote [''PROCESSING'', ''ACTIVE'']" clip
      "handleIn ''PROCESSING''" 1 "handleIn ''ACTIVE''"]
  by (simp add: scriptedRemote_def handleIn_def ProcessingError_def)

text \<open>
  C5: the loop repeats exactly while the state read is \<^verbatim>\<open>PROCESSING\<close>. If request
  \<open>k\<close> is the first to read another state, the run is the upload, the initial
  status request, and exactly \<open>k\<close> iterations, each a wait of 5000 ms followed by one
  status request; it then ends, with the uri and mimeType of the last handle unless
  the state is \<^verbatim>\<open>FAILED\<close>. If every request reads \<^verbatim>\<open>PROCESSING\<close> the call never
  returns. For \<^verbatim>\<open>PROCESSING, PROCESSING, ACTIVE\<close> there are two iterations.
\<close>

theorem poll_loop_iterations:
  assumes "files_upload r f = Inr up"
  shows "((\<forall>j<k. \<exists>h. files_get r (fh_name up) j = Inr h \<and> fh_state h = ''PROCESSING'')
          \<and> files_get r (fh_name up) k = Inr g \<and> fh_state g \<noteq> ''PROCESSING''
          \<longrightarrow> (\<exists>res. uploadFileToGemini r f
                      = Some (res, [CallUpload, CallGet (fh_name up)]
                                   @ concat (replicate k [Sleep 5000, CallGet (fh_name up)]))
                    \<and> (fh_state g \<noteq> ''FAILED'' \<longrightarrow>
                         res = Inr \<lparr>uri = fh_uri g, mimeType = fh_mimeType g, frames = None\<rparr>)))
       \<and> ((\<forall>j. \<exists>h. files_get r (fh_name up) j = Inr h \<and> fh_state h = ''PROCESSING'')
          \<longrightarrow> uploadFileToGemini r f = None)"
proof (intro conjI impI)
  assume a: "(\<forall>j<k. \<exists>h. files_get r (fh_name up) j = Inr h \<and> fh_state h = ''PROCESSING'')
          \<and> files_get r (fh_name up) k = Inr g \<and> fh_state g \<noteq> ''PROCESSING''"
  then have "uploadFileToGemini r f
       = Some (if fh_state g = ''FAILED'' then Inl ProcessingError
               else Inr \<lparr>uri = fh_uri g, mimeType = fh_mimeType g, frames = None\<rparr>,
               [CallUpload, CallGet (fh_name up)]
               @ concat (replicate k [Sleep 5000, CallGet (fh_name up)]))"
    using assms by (intro uploadFileToGemini_run) simp_all
  then show "\<exists>res. uploadFileToGemini r f
                      = Some (res, [CallUpload, CallGet (fh_name up)]
                                   @ concat (replicate k [Sleep 5000, CallGet (fh_name up)]))
                    \<and> (fh_state g \<noteq> ''FAILED'' \<longrightarrow>
                         res = Inr \<lparr>uri = fh_uri g, mimeType = fh_mimeType g, frames = None\<rparr>)"
    by simp
next
  assume "\<forall>j. \<exists>h. files_get r (fh_name up) j = Inr h \<and> fh_state h = ''PROCESSING''"
  with assms show "uploadFileToGemini r f = None"
    by (rule uploadFileToGemini_never)
qed

theorem poll_loop_iterations_witness:
  "uploadFileToGemini (scriptedRemote [''PROCESSING'', ''PROCESSING'', ''ACTIVE'']) clip
     = Some (Inr \<lparr>uri = ''https://files/v1'', mimeType = ''video/mp4'', frames = None\<rparr>,
             [CallUpload, CallGet ''files/v1'',
              Sleep 5000, CallGet ''files/v1'',
              Sleep 5000, CallGet ''files/v1''])
   \<and> uploadFileToGemini (scriptedRemote [''PROCESSING'']) clip = None"
proof -
  let ?r = "scriptedRemote [''PROCESSING'', ''PROCESSING'', ''ACTIVE'']"
  have up: "files_upload ?r clip = Inr (handleIn ''PROCESSING'')"
    by (simp add: scriptedRemote_def)
  have hyp: "(\<forall>j<2. \<exists>h. files_get ?r (fh_name (handleIn ''PROCESSING'')) j = Inr h
                 \<and> fh_state h = ''PROCESSING'')
        \<and> files_get ?r (fh_name (handleIn ''PROCESSING'')) 2 = Inr (handleIn ''ACTIVE'')
        \<and> fh_state (handleIn ''ACTIVE'') \<noteq> ''PROCESSING''"
    by (simp add: scriptedRemote_def handleIn_def numeral_2_eq_2 less_Suc_eq)
  from poll_loop_iterations [OF up, of 2 "handleIn ''ACTIVE''"] hyp
  have 1: "uploadFileToGemini ?r clip
     = Some (Inr \<lparr>uri = ''https://files/v1'', mimeType = ''video/mp4'', frames = None\<rparr>,
             [CallUpload, CallGet ''files/v1'',
              Sleep 5000, CallGet ''files/v1'',
              Sleep 5000, CallGet ''files/v1''])"
    by (auto simp: handleIn_def numeral_2_eq_2)
  let ?s = "scriptedRemote [''PROCESSING'']"
  have up': "files_upload ?s clip = Inr (handleIn ''PROCESSING'')"
    by (simp add: scriptedRemote_def)
  have hyp': "\<forall>j. \<exists>h. files_get ?s (fh_name (handleIn ''PROCESSING'')) j = Inr h
                 \<and> fh_state h = ''PROCESSING''"
    by (simp add: scriptedRemote_def handleIn_def)
  from poll_loop_iterations [OF up', of 0 "handleIn ''PROCESSING''"] hyp'
  have 2: "uploadFileToGemini ?s clip = None"
    by blast
  from 1 2 show ?thesis by simp
qed

section \<open>Properties of the frame sampler\<close>

lemma completeSeek_next:
  assumes "Suc i < n"
  shows "completeSeek v n interval (awaitingSeek v interval i) = awaitingSeek v interval (Suc i)"
  using assms
  by (simp add: completeSeek_def onSeeked_def captureFrame_def awaitingSeek_def Let_def)

lemma completeSeek_last:
  assumes "Suc i = n"
  shows "completeSeek v n interval (awaitingSeek v interval i) = finished v interval n"
  using assms
  by (auto simp: completeSeek_def onSeeked_def captureFrame_def awaitingSeek_def finished_def Let_def)

lemma eventLoop_finished: "eventLoop v n interval (finished v interval n) = finished v interval n"
  by (subst eventLoop.simps) (simp add: finished_def)

lemma eventLoop_awaiting:
  "i < n \<Longrightarrow> eventLoop v n interval (awaitingSeek v interval i) = finished v interval n"
proof (induction "n - i" arbitrary: i)
  case 0
  then show ?case by simp
next
  case (Suc d)
  have seeking: "seeking (awaitingSeek v interval i)" by (simp add: awaitingSeek_def)
  show ?case
  proof (cases "Suc i = n")
    case True
    then show ?thesis
      by (subst eventLoop.simps) (simp add: seeking completeSeek_last eventLoop_finished)
  next
    case False
    with Suc.prems have lt: "Suc i < n" by simp
    with Suc.hyps have "eventLoop v n interval (awaitingSeek v interval (Suc i)) = finished v interval n"
      by (intro Suc.hyps(1)) simp_all
    with lt show ?thesis
      by (subst eventLoop.simps) (simp add: seeking completeSeek_next)
  qed
qed

lemma extractFramesRun_eq:
  assumes "0 < n"
  shows "extractFramesRun v n = finished v (duration v / real n) n"
proof -
  have "captureFrame n (duration v / real n)
          \<lparr>ex_frames = [], currentFrame = 0, currentTime = 0, seeking = False,
           listening = True, resolved = False, signals = []\<rparr>
      = awaitingSeek v (duration v / real n) 0"
    using assms by (simp add: captureFrame_def awaitingSeek_def)
  then show ?thesis
    using assms by (simp add: extractFramesRun_def Let_def eventLoop_awaiting)
qed

text \<open>
  C6: for a source that completes every seek, and every positive \<open>n\<close>, the promise
  of \<^verbatim>\<open>extractFrames(source, n)\<close> is resolved with exactly \<open>n\<close> frames, frame \<open>i\<close>
  captured at the position \<open>i * d / n\<close> for the duration \<open>d\<close>; the seeks are issued
  one after the other, each only after the one before has completed.
\<close>

theorem extractFrames_exact:
  assumes "0 < n"
  shows "extractFrames v n = Some (map (\<lambda>i. snapshot v (real i * duration v / real n)) [0..<n])
       \<and> map_option length (extractFrames v n) = Some n
       \<and> signals (extractFramesRun v n)
           = concat (map (\<lambda>i. [SeekIssued (real i * duration v / real n), Seeked]) [0..<n])"
  using assms by (simp add: extractFrames_def extractFramesRun_eq finished_def)

theorem extractFrames_exact_witness:
  "extractFrames sixSeconds 3 = Some [''frame@0'', ''frame@2'', ''frame@4'']
   \<and> signals (extractFramesRun sixSeconds 3)
       = [SeekIssued 0, Seeked, SeekIssued 2, Seeked, SeekIssued 4, Seeked]"
proof -
  have u: "[0..<3] = [0, 1, 2::nat]" by code_simp
  from extractFrames_exact [of 3 sixSeconds] show ?thesis
    by (simp add: u sixSeconds_def)
qed

section \<open>Properties of the result cache and the mode controller\<close>




lemma app_keys_colon_free:
  "\<forall>p \<in> set providerIds. CHR '':'' \<notin> set p"
  "\<forall>m \<in> set modeNames. CHR '':'' \<notin> set m"
  by (simp_all add: providerIds_def modeNames_def)










text \<open>
  Loading a new video empties the cache, and so would the handler
  \<^verbatim>\<open>handleProviderChange\<close> for a change away from Gemini and back while a video is
  loaded, if it were called.
\<close>

lemma uploadVideo_clears:
  "providerConfig st = Some c \<Longrightarrow> resultCache (uploadVideo e st (Some videoFile)) = Map.empty"
  by (simp add: uploadVideo_def Let_def split: option.splits sum.splits prod.splits)

lemma handleProviderChange_back:
  assumes "appFile st = Some f" and "vidUrl st = Some url" and "url \<noteq> []"
    and "provider back = ''gemini''"
  shows "resultCache (handleProviderChange (handleProviderChange st away) back) = Map.empty"
proof (cases "provider away = ''gemini''")
  case True
  with assms show ?thesis by (simp add: handleProviderChange_def Let_def)
next
  case False
  with assms show ?thesis by (simp add: handleProviderChange_def Let_def)
qed

text \<open>The change of provider the component performs touches neither cache nor file.\<close>

lemma switchProvider_cache:
  "resultCache (switchProvider st config) = resultCache st"
  "appFile (switchProvider st config) = appFile st"
  "vidUrl (switchProvider st config) = vidUrl st"
  "providerConfig (switchProvider st config) = Some config"
  by (simp_all add: switchProvider_def onReady_def clickChange_def setProviderConfig_def)

text \<open>
  C8 does not hold of the code in its second half. In a Gemini session with a video
  loaded and a cached Diagram result, changing the provider to OpenAI and back to
  Gemini (each time the "Change" button and the setup screen, which call
  \<^verbatim>\<open>setProviderConfig\<close>) leaves the cached result in place: the handler that
  clears the cache is never called.
\<close>

theorem provider_switch_keeps_cache:
  "appFile cachedState
     = Some \<lparr>uri = ''https://files/v1'', mimeType = ''video/mp4'', frames = None\<rparr>
   \<and> vidUrl cachedState = Some ''blob:video''
   \<and> providerConfig cachedState = Some geminiConfig
   \<and> provider geminiConfig = ''gemini'' \<and> provider openaiConfig = ''openai''
   \<and> getCached cachedState ''Diagram'' = Some diagramResult
   \<and> providerConfig (switchProvider (switchProvider cachedState openaiConfig) geminiConfig)
       = Some geminiConfig
   \<and> getCached (switchProvider (switchProvider cachedState openaiConfig) geminiConfig) ''Diagram''
       = Some diagramResult"
  by (simp add: switchProvider_cache getCached_def cachedState_def initialState_def
      geminiConfig_def openaiConfig_def cacheKey_def modelOrEmpty_def)

end
